theory Spec2Isabelle
  imports Main
begin

section \<open>The remote-control front end of \<open>fpv.py\<close>\<close>

text \<open>
  The development embeds the \<open>Drone\<close> backend of \<open>fpv.py\<close>, the \<open>Info\<close> panel and the
  control loop of \<open>App\<close>. Python integers are unbounded, so velocities are \<open>int\<close>.
  The object \<open>self.drone\<close> of class \<open>Drone\<close> is the \<open>Tello\<close> of the library
  \<open>djitellopy\<close>, which is not part of the program: a call of one of its methods is
  recorded in a log, and whether it returns or raises is decided by a parameter of the
  model. Video decoding, fonts, the screen and the frame clock (\<open>cv2\<close>, \<open>pygame\<close>) are not
  modelled. The stand-in \<open>NotebookCamera\<close> has neither velocity attributes nor
  \<open>update_rc\<close> and is left out.
\<close>

subsection \<open>Calls on the Tello object\<close>

datatype tello_call =
    Connect | Streamon | Streamoff | End
  | Land | Takeoff | Emergency
  | Get_battery | Get_height | Get_temperature | Query_wifi_signal_noise_ratio
  | Get_frame_read
  | Send_rc_control int int int int

text \<open>The program has no \<open>try\<close>: an exception raised by a call ends the program.\<close>

datatype error = TelloException tello_call

text \<open>
  \<open>ok log c\<close> says whether the call \<open>c\<close>, made after the calls of \<open>log\<close> have returned,
  returns normally.
\<close>

type_synonym tello_ok = "tello_call list \<Rightarrow> tello_call \<Rightarrow> bool"

definition bind_result :: "error + 'a \<Rightarrow> ('a \<Rightarrow> error + 'b) \<Rightarrow> error + 'b" where
  "bind_result m f = (case m of Inl e \<Rightarrow> Inl e | Inr x \<Rightarrow> f x)"

subsection \<open>Class \<open>Drone\<close>\<close>

text \<open>
  The four velocity attributes of a \<open>Drone\<close>, and \<open>tello\<close>, the calls that have returned
  on \<open>self.drone\<close>, oldest first.
\<close>

record drone =
  left_right_velocity :: int
  forward_backward_velocity :: int
  up_down_velocity :: int
  yaw_velocity :: int
  tello :: "tello_call list"

text \<open>
  The helpers \<open>_gain_velocity_plus\<close>, \<open>_gain_velocity_minus\<close> and \<open>_waste_velocity\<close> take
  the name of an attribute and use \<open>getattr\<close> and \<open>setattr\<close>. The class passes the four
  names below and no other.
\<close>

datatype attr = Left_right_velocity | Forward_backward_velocity | Up_down_velocity | Yaw_velocity

fun getattr :: "drone \<Rightarrow> attr \<Rightarrow> int" where
  "getattr d Left_right_velocity = left_right_velocity d"
| "getattr d Forward_backward_velocity = forward_backward_velocity d"
| "getattr d Up_down_velocity = up_down_velocity d"
| "getattr d Yaw_velocity = yaw_velocity d"

fun setattr :: "drone \<Rightarrow> attr \<Rightarrow> int \<Rightarrow> drone" where
  "setattr d Left_right_velocity v = d\<lparr>left_right_velocity := v\<rparr>"
| "setattr d Forward_backward_velocity v = d\<lparr>forward_backward_velocity := v\<rparr>"
| "setattr d Up_down_velocity v = d\<lparr>up_down_velocity := v\<rparr>"
| "setattr d Yaw_velocity v = d\<lparr>yaw_velocity := v\<rparr>"

definition call_tello :: "tello_ok \<Rightarrow> tello_call \<Rightarrow> drone \<Rightarrow> error + drone" where
  "call_tello ok c d =
     (if ok (tello d) c then Inr (d\<lparr>tello := tello d @ [c]\<rparr>) else Inl (TelloException c))"

definition gain_velocity_plus :: "drone \<Rightarrow> attr \<Rightarrow> int \<Rightarrow> drone" where
  "gain_velocity_plus d velocity max_vel =
     (let vel = getattr d velocity;
          vel = vel + 3;
          vel = max 0 (min vel max_vel)
      in setattr d velocity vel)"

definition gain_velocity_minus :: "drone \<Rightarrow> attr \<Rightarrow> int \<Rightarrow> drone" where
  "gain_velocity_minus d velocity min_vel =
     (let vel = getattr d velocity;
          vel = vel - 3;
          vel = max min_vel (min vel 0)
      in setattr d velocity vel)"

definition waste_velocity :: "drone \<Rightarrow> attr \<Rightarrow> drone" where
  "waste_velocity d velocity =
     (let vel = getattr d velocity;
          vel = (if vel > 0 then max 0 (vel - 10) else min 0 (vel + 10))
      in setattr d velocity vel)"

definition right :: "drone \<Rightarrow> drone" where
  "right d = gain_velocity_plus d Left_right_velocity 100"

definition left :: "drone \<Rightarrow> drone" where
  "left d = gain_velocity_minus d Left_right_velocity (- 100)"

definition waste_left_right :: "drone \<Rightarrow> drone" where
  "waste_left_right d = waste_velocity d Left_right_velocity"

definition forward :: "drone \<Rightarrow> drone" where
  "forward d = gain_velocity_plus d Forward_backward_velocity 100"

definition backward :: "drone \<Rightarrow> drone" where
  "backward d = gain_velocity_minus d Forward_backward_velocity (- 100)"

definition waste_forward_backward :: "drone \<Rightarrow> drone" where
  "waste_forward_backward d = waste_velocity d Forward_backward_velocity"

definition up :: "drone \<Rightarrow> drone" where
  "up d = gain_velocity_plus d Up_down_velocity 100"

definition down :: "drone \<Rightarrow> drone" where
  "down d = gain_velocity_minus d Up_down_velocity (- 100)"

definition waste_up_down :: "drone \<Rightarrow> drone" where
  "waste_up_down d = waste_velocity d Up_down_velocity"

definition ccw :: "drone \<Rightarrow> drone" where
  "ccw d = gain_velocity_plus d Yaw_velocity 100"

definition cw :: "drone \<Rightarrow> drone" where
  "cw d = gain_velocity_minus d Yaw_velocity (- 100)"

definition waste_yaw :: "drone \<Rightarrow> drone" where
  "waste_yaw d = waste_velocity d Yaw_velocity"

definition stop :: "drone \<Rightarrow> drone" where
  "stop d = d\<lparr>left_right_velocity := 0, forward_backward_velocity := 0,
              up_down_velocity := 0, yaw_velocity := 0\<rparr>"

definition update_rc :: "tello_ok \<Rightarrow> drone \<Rightarrow> error + drone" where
  "update_rc ok d =
     call_tello ok (Send_rc_control (left_right_velocity d) (forward_backward_velocity d)
                      (up_down_velocity d) (yaw_velocity d)) d"

definition release :: "tello_ok \<Rightarrow> drone \<Rightarrow> error + drone" where
  "release ok d =
     bind_result (call_tello ok Streamoff d) (\<lambda>d.
     bind_result (update_rc ok (stop d)) (\<lambda>d.
     call_tello ok End d))"

definition land :: "tello_ok \<Rightarrow> drone \<Rightarrow> error + drone" where
  "land ok d = call_tello ok Land d"

definition takeoff :: "tello_ok \<Rightarrow> drone \<Rightarrow> error + drone" where
  "takeoff ok d = call_tello ok Takeoff d"

definition emergency :: "tello_ok \<Rightarrow> drone \<Rightarrow> error + drone" where
  "emergency ok d = call_tello ok Emergency d"

definition get_frame :: "tello_ok \<Rightarrow> drone \<Rightarrow> error + drone" where
  "get_frame ok d = call_tello ok Get_frame_read d"

text \<open>
  \<open>Drone.__init__\<close>: connect, start the stream, \<open>stop\<close>, \<open>update_rc\<close>. The attributes
  do not exist before \<open>stop\<close> assigns them; the record that \<open>stop\<close> overwrites stands for
  the object without them.
\<close>

definition Drone_init :: "tello_ok \<Rightarrow> error + drone" where
  "Drone_init ok =
     bind_result (call_tello ok Connect
        \<lparr>left_right_velocity = 0, forward_backward_velocity = 0,
         up_down_velocity = 0, yaw_velocity = 0, tello = []\<rparr>) (\<lambda>d.
     bind_result (call_tello ok Streamon d) (\<lambda>d.
     update_rc ok (stop d)))"

subsection \<open>Class \<open>Info\<close>\<close>

text \<open>
  \<open>last_upd_time\<close> is the attribute of the class; \<open>refreshes\<close> counts the times \<open>_update\<close>
  has drawn the panel on the screen.
\<close>

record info =
  last_upd_time :: nat
  refreshes :: nat

text \<open>
  \<open>Info._update\<close> formats the four velocities of the drone and reads, in this order, the
  properties \<open>altittude\<close>, \<open>battery\<close>, \<open>temperature\<close> and \<open>noise\<close>, each a call on the
  Tello object; then it blits the panel. \<open>Info\<close> holds the same \<open>Drone\<close> object as the
  \<open>App\<close>, so the drone is passed in and returned.
\<close>

definition Info_update_panel :: "tello_ok \<Rightarrow> info \<Rightarrow> drone \<Rightarrow> error + info \<times> drone" where
  "Info_update_panel ok i d =
     bind_result (call_tello ok Get_height d) (\<lambda>d.
     bind_result (call_tello ok Get_battery d) (\<lambda>d.
     bind_result (call_tello ok Get_temperature d) (\<lambda>d.
     bind_result (call_tello ok Query_wifi_signal_noise_ratio d) (\<lambda>d.
     Inr (i\<lparr>refreshes := Suc (refreshes i)\<rparr>, d)))))"

text \<open>\<open>Info.update\<close>; \<open>now\<close> is the value read from \<open>time.localtime().tm_sec\<close>.\<close>

definition Info_update :: "tello_ok \<Rightarrow> nat \<Rightarrow> info \<Rightarrow> drone \<Rightarrow> error + info \<times> drone" where
  "Info_update ok now i d =
     (if now \<noteq> last_upd_time i
      then Info_update_panel ok (i\<lparr>last_upd_time := now\<rparr>) d
      else Inr (i, d))"

text \<open>
  The field \<open>tm_sec\<close> of \<open>time.localtime()\<close> when the wall clock shows \<open>t\<close> milliseconds
  of local time: the seconds within the minute (leap seconds apart).
\<close>

definition tm_sec :: "nat \<Rightarrow> nat" where
  "tm_sec t = (t div 1000) mod 60"

subsection \<open>Class \<open>App\<close>\<close>

datatype key =
    K_ESCAPE | K_0 | K_1 | K_DELETE
  | K_w | K_s | K_a | K_d | K_SPACE | K_c | K_q | K_e
  | K_other nat

datatype event = QUIT | KEYUP key | OTHER

record app =
  drone :: drone
  info :: info
  running :: bool

text \<open>What one iteration of the loop reads from outside: the clock, the event queue, the keyboard.\<close>

record tick =
  now :: nat
  events :: "event list"
  keys :: "key \<Rightarrow> bool"

definition App_init :: "tello_ok \<Rightarrow> nat \<Rightarrow> error + app" where
  "App_init ok t =
     bind_result (Drone_init ok) (\<lambda>d.
     Inr \<lparr>drone = d, info = \<lparr>last_upd_time = t, refreshes = 0\<rparr>, running = True\<rparr>)"

definition on_info :: "tello_ok \<Rightarrow> nat \<Rightarrow> app \<Rightarrow> error + app" where
  "on_info ok t a =
     bind_result (Info_update ok t (info a) (drone a)) (\<lambda>(i, d).
     Inr (a\<lparr>info := i, drone := d\<rparr>))"

text \<open>The body of the \<open>for\<close> loop of \<open>on_event\<close>, for one event.\<close>

definition on_event_body :: "tello_ok \<Rightarrow> event \<Rightarrow> app \<Rightarrow> error + app" where
  "on_event_body ok ev a =
     (let a = (if ev = QUIT then a\<lparr>running := False\<rparr> else a)
      in case ev of
           KEYUP k \<Rightarrow>
             (if k = K_ESCAPE then Inr (a\<lparr>running := False\<rparr>)
              else if k = K_0 then bind_result (land ok (drone a)) (\<lambda>d. Inr (a\<lparr>drone := d\<rparr>))
              else if k = K_1 then bind_result (takeoff ok (drone a)) (\<lambda>d. Inr (a\<lparr>drone := d\<rparr>))
              else if k = K_DELETE then
                bind_result (emergency ok (drone a)) (\<lambda>d. Inr (a\<lparr>drone := d\<rparr>))
              else Inr a)
         | _ \<Rightarrow> Inr a)"

fun on_event_loop :: "tello_ok \<Rightarrow> event list \<Rightarrow> app \<Rightarrow> error + app" where
  "on_event_loop ok [] a = Inr a"
| "on_event_loop ok (ev # evs) a =
     (case on_event_body ok ev a of Inl e \<Rightarrow> Inl e | Inr a' \<Rightarrow> on_event_loop ok evs a')"

text \<open>The second half of \<open>on_event\<close>: the four \<open>if\<close>/\<open>elif\<close>/\<open>else\<close> chains on the pressed keys.\<close>

definition on_event_keys :: "(key \<Rightarrow> bool) \<Rightarrow> drone \<Rightarrow> drone" where
  "on_event_keys ks d =
     (let d = (if ks K_w then forward d
               else if ks K_s then backward d
               else waste_forward_backward d);
          d = (if ks K_a then left d
               else if ks K_d then right d
               else waste_left_right d);
          d = (if ks K_SPACE then up d
               else if ks K_c then down d
               else waste_up_down d);
          d = (if ks K_q then cw d
               else if ks K_e then ccw d
               else waste_yaw d)
      in d)"

definition on_event :: "tello_ok \<Rightarrow> event list \<Rightarrow> (key \<Rightarrow> bool) \<Rightarrow> app \<Rightarrow> error + app" where
  "on_event ok evs ks a =
     bind_result (on_event_loop ok evs a) (\<lambda>a.
     Inr (a\<lparr>drone := on_event_keys ks (drone a)\<rparr>))"

definition draw_frame :: "tello_ok \<Rightarrow> app \<Rightarrow> error + app" where
  "draw_frame ok a = bind_result (get_frame ok (drone a)) (\<lambda>d. Inr (a\<lparr>drone := d\<rparr>))"

definition on_render :: "tello_ok \<Rightarrow> app \<Rightarrow> error + app" where
  "on_render ok a = draw_frame ok a"

definition on_exit :: "tello_ok \<Rightarrow> app \<Rightarrow> error + app" where
  "on_exit ok a = bind_result (release ok (drone a)) (\<lambda>d. Inr (a\<lparr>drone := d\<rparr>))"

text \<open>The body of the \<open>while\<close> loop of \<open>run\<close>: one control tick.\<close>

definition run_body :: "tello_ok \<Rightarrow> tick \<Rightarrow> app \<Rightarrow> error + app" where
  "run_body ok t a =
     bind_result (on_info ok (now t) a) (\<lambda>a.
     bind_result (on_event ok (events t) (keys t) a) (\<lambda>a.
     bind_result (on_render ok a) (\<lambda>a.
     bind_result (update_rc ok (drone a)) (\<lambda>d.
     Inr (a\<lparr>drone := d\<rparr>)))))"

text \<open>
  \<open>App.run\<close>, on the inputs of the ticks to come. When the inputs are used up and
  \<open>_running\<close> still holds, the loop is still going: the state is returned as it is, with
  \<open>running\<close> true and no teardown.
\<close>

fun run :: "tello_ok \<Rightarrow> tick list \<Rightarrow> app \<Rightarrow> error + app" where
  "run ok [] a = (if running a then Inr a else on_exit ok a)"
| "run ok (t # ts) a =
     (if running a
      then (case run_body ok t a of Inl e \<Rightarrow> Inl e | Inr a' \<Rightarrow> run ok ts a')
      else on_exit ok a)"

subsection \<open>Sequences of calls on the velocity controller\<close>

datatype call =
    Right | Left | Waste_left_right
  | Forward | Backward | Waste_forward_backward
  | Up | Down | Waste_up_down
  | Ccw | Cw | Waste_yaw
  | Stop

fun invoke :: "drone \<Rightarrow> call \<Rightarrow> drone" where
  "invoke d Right = right d"
| "invoke d Left = left d"
| "invoke d Waste_left_right = waste_left_right d"
| "invoke d Forward = forward d"
| "invoke d Backward = backward d"
| "invoke d Waste_forward_backward = waste_forward_backward d"
| "invoke d Up = up d"
| "invoke d Down = down d"
| "invoke d Waste_up_down = waste_up_down d"
| "invoke d Ccw = ccw d"
| "invoke d Cw = cw d"
| "invoke d Waste_yaw = waste_yaw d"
| "invoke d Stop = stop d"

text \<open>The attribute that a call works on; \<open>stop\<close> assigns all four.\<close>

fun attr_of :: "call \<Rightarrow> attr option" where
  "attr_of Right = Some Left_right_velocity"
| "attr_of Left = Some Left_right_velocity"
| "attr_of Waste_left_right = Some Left_right_velocity"
| "attr_of Forward = Some Forward_backward_velocity"
| "attr_of Backward = Some Forward_backward_velocity"
| "attr_of Waste_forward_backward = Some Forward_backward_velocity"
| "attr_of Up = Some Up_down_velocity"
| "attr_of Down = Some Up_down_velocity"
| "attr_of Waste_up_down = Some Up_down_velocity"
| "attr_of Ccw = Some Yaw_velocity"
| "attr_of Cw = Some Yaw_velocity"
| "attr_of Waste_yaw = Some Yaw_velocity"
| "attr_of Stop = None"

definition in_range :: "drone \<Rightarrow> bool" where
  "in_range d \<longleftrightarrow>
     - 100 \<le> left_right_velocity d \<and> left_right_velocity d \<le> 100 \<and>
     - 100 \<le> forward_backward_velocity d \<and> forward_backward_velocity d \<le> 100 \<and>
     - 100 \<le> up_down_velocity d \<and> up_down_velocity d \<le> 100 \<and>
     - 100 \<le> yaw_velocity d \<and> yaw_velocity d \<le> 100"

text \<open>The number of \<open>send_rc_control\<close> calls in a log.\<close>

fun is_rc :: "tello_call \<Rightarrow> bool" where
  "is_rc (Send_rc_control a b c d) = True"
| "is_rc _ = False"

definition flushes :: "tello_call list \<Rightarrow> nat" where
  "flushes l = length (filter is_rc l)"

subsection \<open>Concrete inputs\<close>

text \<open>A Tello whose calls all return; one whose \<open>streamoff\<close> raises.\<close>

definition always_ok :: tello_ok where
  "always_ok h c = True"

definition streamoff_fails :: tello_ok where
  "streamoff_fails h c = (c \<noteq> Streamoff)"

text \<open>No key pressed; \<open>w\<close> and \<open>s\<close> pressed together.\<close>

definition no_keys :: "key \<Rightarrow> bool" where
  "no_keys k = False"

definition keys_w_and_s :: "key \<Rightarrow> bool" where
  "keys_w_and_s k = (k = K_w \<or> k = K_s)"

text \<open>A drone with the given four velocities, on which no call has been made yet.\<close>

definition drone_at :: "int \<Rightarrow> int \<Rightarrow> int \<Rightarrow> int \<Rightarrow> drone" where
  "drone_at lr fb ud yaw =
     \<lparr>left_right_velocity = lr, forward_backward_velocity = fb, up_down_velocity = ud,
      yaw_velocity = yaw, tello = []\<rparr>"

text \<open>A drone flying forward at 50, and an application running on it.\<close>

definition cruising :: drone where
  "cruising = \<lparr>left_right_velocity = 0, forward_backward_velocity = 50, up_down_velocity = 0,
     yaw_velocity = 0, tello = []\<rparr>"

definition cruising_app :: app where
  "cruising_app = \<lparr>drone = cruising, info = \<lparr>last_upd_time = 7, refreshes = 0\<rparr>, running = True\<rparr>"

text \<open>A tick in which the window is closed and no key is pressed.\<close>

definition quit_tick :: tick where
  "quit_tick = \<lparr>now = 7, events = [QUIT], keys = no_keys\<rparr>"

section \<open>The velocity controller\<close>

subsection \<open>What each helper does to each attribute\<close>

lemmas wrapper_defs = right_def left_def waste_left_right_def forward_def backward_def
  waste_forward_backward_def up_def down_def waste_up_down_def ccw_def cw_def waste_yaw_def

lemma getattr_setattr: "getattr (setattr d a v) b = (if b = a then v else getattr d b)"
  by (cases a; cases b) simp_all

lemma tello_setattr: "tello (setattr d a v) = tello d"
  by (cases a) simp_all

lemma getattr_gain_plus:
  "getattr (gain_velocity_plus d a m) b =
     (if b = a then max 0 (min (getattr d a + 3) m) else getattr d b)"
  by (simp add: gain_velocity_plus_def Let_def getattr_setattr)

lemma getattr_gain_minus:
  "getattr (gain_velocity_minus d a m) b =
     (if b = a then max m (min (getattr d a - 3) 0) else getattr d b)"
  by (simp add: gain_velocity_minus_def Let_def getattr_setattr)

lemma getattr_waste:
  "getattr (waste_velocity d a) b =
     (if b = a
      then (if getattr d a > 0 then max 0 (getattr d a - 10) else min 0 (getattr d a + 10))
      else getattr d b)"
  by (simp add: waste_velocity_def Let_def getattr_setattr)

lemma getattr_stop: "getattr (stop d) b = 0"
  by (cases b) (simp_all add: stop_def)

lemma tello_gain_plus: "tello (gain_velocity_plus d a m) = tello d"
  by (simp add: gain_velocity_plus_def Let_def tello_setattr)

lemma tello_gain_minus: "tello (gain_velocity_minus d a m) = tello d"
  by (simp add: gain_velocity_minus_def Let_def tello_setattr)

lemma tello_waste: "tello (waste_velocity d a) = tello d"
  by (simp add: waste_velocity_def Let_def tello_setattr)

subsection \<open>The range of the velocities\<close>

lemma in_range_getattr: "in_range d \<longleftrightarrow> (\<forall>a. - 100 \<le> getattr d a \<and> getattr d a \<le> 100)"
proof
  assume "in_range d"
  then show "\<forall>a. - 100 \<le> getattr d a \<and> getattr d a \<le> 100"
    unfolding in_range_def by (intro allI) (case_tac a; simp)
next
  assume h: "\<forall>a. - 100 \<le> getattr d a \<and> getattr d a \<le> 100"
  from h[rule_format, of Left_right_velocity] h[rule_format, of Forward_backward_velocity]
    h[rule_format, of Up_down_velocity] h[rule_format, of Yaw_velocity]
  show "in_range d" by (simp add: in_range_def)
qed

lemma invoke_bounds:
  assumes "- 100 \<le> getattr d b \<and> getattr d b \<le> 100"
  shows "- 100 \<le> getattr (invoke d c) b \<and> getattr (invoke d c) b \<le> 100"
  using assms
  by (cases c)
     (auto simp: wrapper_defs getattr_gain_plus getattr_gain_minus getattr_waste getattr_stop)

lemma in_range_invoke: "in_range d \<Longrightarrow> in_range (invoke d c)"
  unfolding in_range_getattr using invoke_bounds by blast

lemma in_range_stop: "in_range (stop d)"
  by (simp add: in_range_getattr getattr_stop)

lemma in_range_foldl: "in_range d \<Longrightarrow> in_range (foldl invoke d cs)"
  by (induction cs arbitrary: d) (simp_all add: in_range_invoke)

lemma Drone_init_in_range: "Drone_init ok = Inr d0 \<Longrightarrow> in_range d0"
  by (auto simp: Drone_init_def bind_result_def call_tello_def update_rc_def stop_def in_range_def
      split: if_splits sum.splits)

text \<open>
  Claim C2. Start from the state that \<open>stop\<close> leaves (all four velocities zero), or from
  the drone that \<open>Drone.__init__\<close> returns, and make any sequence \<open>cs\<close> of calls of the
  twelve per-axis methods and of \<open>stop\<close>. After every call of the sequence, that is after
  each of its prefixes \<open>take n cs\<close>, every velocity is within \<open>[-100, 100]\<close>.
\<close>

theorem velocities_stay_in_range:
  "in_range (foldl invoke (stop d) (take n cs)) \<and>
   (Drone_init ok = Inr d0 \<longrightarrow> in_range (foldl invoke d0 (take n cs)))"
  by (simp add: in_range_foldl in_range_stop Drone_init_in_range)

theorem velocities_stay_in_range_witness:
  "Drone_init always_ok =
     Inr ((drone_at 0 0 0 0)\<lparr>tello := [Connect, Streamon, Send_rc_control 0 0 0 0]\<rparr>) \<and>
   in_range (foldl invoke
     ((drone_at 0 0 0 0)\<lparr>tello := [Connect, Streamon, Send_rc_control 0 0 0 0]\<rparr>)
     (take 2 [Right, Right, Left]))"
proof -
  have i: "Drone_init always_ok =
     Inr ((drone_at 0 0 0 0)\<lparr>tello := [Connect, Streamon, Send_rc_control 0 0 0 0]\<rparr>)"
    by (simp add: Drone_init_def bind_result_def call_tello_def update_rc_def stop_def
        always_ok_def drone_at_def)
  from velocities_stay_in_range [of "drone_at 5 0 0 0" 2 "[Right, Right, Left]" always_ok] i
  show ?thesis by blast
qed

subsection \<open>Decay\<close>

lemma waste_iterate:
  "getattr (((\<lambda>d. waste_velocity d a) ^^ n) d) a =
     (if getattr d a > 0 then max 0 (getattr d a - 10 * int n)
      else min 0 (getattr d a + 10 * int n))"
  by (induction n) (auto simp: getattr_waste)

text \<open>
  Claim C3. Let the velocity \<open>a\<close> be within \<open>[-100, 100]\<close> and call \<open>_waste_velocity\<close> on
  it \<open>n\<close> times. From ten calls on the value is 0; after any number of calls it lies
  between 0 and the starting value, so it never passes zero and never changes sign.
  From 5 one call gives 0; from 0 a call leaves 0; from 100 the value after \<open>n\<close> calls
  is \<open>100 - 10 n\<close> down to 0 at the tenth call, and 0 from then on.
\<close>

theorem waste_reaches_zero:
  "- 100 \<le> getattr d a \<Longrightarrow> getattr d a \<le> 100 \<Longrightarrow>
     (10 \<le> n \<longrightarrow> getattr (((\<lambda>d. waste_velocity d a) ^^ n) d) a = 0) \<and>
     min 0 (getattr d a) \<le> getattr (((\<lambda>d. waste_velocity d a) ^^ n) d) a \<and>
     getattr (((\<lambda>d. waste_velocity d a) ^^ n) d) a \<le> max 0 (getattr d a) \<and>
     getattr (waste_velocity (setattr d a 5) a) a = 0 \<and>
     getattr (waste_velocity (setattr d a 0) a) a = 0 \<and>
     getattr (((\<lambda>d. waste_velocity d a) ^^ n) (setattr d a 100)) a = max 0 (100 - 10 * int n)"
  by (auto simp: waste_iterate getattr_waste getattr_setattr)

theorem waste_reaches_zero_witness:
  "- 100 \<le> getattr (drone_at 0 0 0 (- 73)) Yaw_velocity \<and>
   getattr (drone_at 0 0 0 (- 73)) Yaw_velocity \<le> 100 \<and> (10::nat) \<le> 10 \<and>
   getattr (((\<lambda>d. waste_velocity d Yaw_velocity) ^^ 10) (drone_at 0 0 0 (- 73)))
     Yaw_velocity = 0"
  using waste_reaches_zero [of "drone_at 0 0 0 (- 73)" Yaw_velocity 10]
  by (simp add: drone_at_def)

subsection \<open>Stop\<close>

text \<open>
  Claim C5. Whatever the state of the drone, after \<open>stop\<close> the four velocity attributes,
  read as \<open>update_rc\<close> and \<open>Info._update\<close> read them, are all zero.
\<close>

theorem stop_then_snapshot_zero:
  "left_right_velocity (stop d) = 0 \<and> forward_backward_velocity (stop d) = 0 \<and>
   up_down_velocity (stop d) = 0 \<and> yaw_velocity (stop d) = 0"
  by (simp add: stop_def)

subsection \<open>Gain\<close>

lemma gain_plus_iterate:
  "getattr d a = 0 \<Longrightarrow>
     getattr (((\<lambda>d. gain_velocity_plus d a 100) ^^ n) d) a = min 100 (3 * int n)"
  by (induction n) (auto simp: getattr_gain_plus)

text \<open>
  Claim C8. From velocity 0, after \<open>n\<close> calls of \<open>_gain_velocity_plus\<close> with maximum 100
  the velocity is \<open>3 n\<close> while \<open>n < 34\<close> (99 after 33 calls) and exactly 100 at the 34th
  call and after every further call.
\<close>

theorem gain_plus_34_ticks:
  "getattr d a = 0 \<Longrightarrow>
     getattr (((\<lambda>d. gain_velocity_plus d a 100) ^^ n) d) a =
       (if n < 34 then 3 * int n else 100)"
  by (simp add: gain_plus_iterate)

theorem gain_plus_34_ticks_witness:
  "getattr (drone_at 7 0 0 0) Up_down_velocity = 0 \<and>
   getattr (((\<lambda>d. gain_velocity_plus d Up_down_velocity 100) ^^ 34) (drone_at 7 0 0 0))
     Up_down_velocity = 100"
  using gain_plus_34_ticks [of "drone_at 7 0 0 0" Up_down_velocity 34]
  by (simp add: drone_at_def)

text \<open>
  Claim C9, as stated: from every negative velocity one call of \<open>_gain_velocity_plus\<close>
  gives 0. It fails at \<open>-1\<close>: \<open>right\<close> adds 3 first and clamps afterwards, which gives 2.
\<close>

theorem gain_plus_negative_counterexample:
  "left_right_velocity (drone_at (- 1) 0 0 0) < 0 \<and>
   left_right_velocity (right (drone_at (- 1) 0 0 0)) = 2"
  by (simp add: right_def gain_velocity_plus_def drone_at_def)

text \<open>
  Claim C9, amended. From a negative velocity \<open>v\<close> one call of \<open>_gain_velocity_plus\<close> with
  maximum 100 gives \<open>max 0 (v + 3)\<close>: never a negative value, at most 2, and 0 exactly
  when \<open>v \<le> -3\<close>.
\<close>

theorem gain_plus_from_negative:
  "getattr d a < 0 \<Longrightarrow>
     getattr (gain_velocity_plus d a 100) a = max 0 (getattr d a + 3) \<and>
     0 \<le> getattr (gain_velocity_plus d a 100) a \<and>
     getattr (gain_velocity_plus d a 100) a \<le> 2 \<and>
     (getattr (gain_velocity_plus d a 100) a = 0 \<longleftrightarrow> getattr d a \<le> - 3)"
  by (auto simp: getattr_gain_plus)

theorem gain_plus_from_negative_witness:
  "getattr (drone_at (- 12) 0 0 0) Left_right_velocity < 0 \<and>
   getattr (gain_velocity_plus (drone_at (- 12) 0 0 0) Left_right_velocity 100)
     Left_right_velocity = 0"
  using gain_plus_from_negative [of "drone_at (- 12) 0 0 0" Left_right_velocity]
  by (simp add: drone_at_def)

subsection \<open>Frame\<close>

text \<open>
  Claim C10. A call of one of the twelve per-axis methods (gain in either direction, or
  decay, on the attribute \<open>a\<close>) leaves each of the other three velocity attributes as it
  was, and makes no call on the Tello object.
\<close>

theorem per_axis_call_frame:
  "attr_of c = Some a \<Longrightarrow> b \<noteq> a \<Longrightarrow>
     getattr (invoke d c) b = getattr d b \<and> tello (invoke d c) = tello d"
  by (cases c)
     (auto simp: wrapper_defs getattr_gain_plus getattr_gain_minus getattr_waste
        tello_gain_plus tello_gain_minus tello_waste)

theorem per_axis_call_frame_witness:
  "attr_of Forward = Some Forward_backward_velocity \<and>
   Yaw_velocity \<noteq> Forward_backward_velocity \<and>
   getattr (invoke (drone_at 1 2 3 4) Forward) Yaw_velocity = 4"
  using per_axis_call_frame [of Forward Forward_backward_velocity Yaw_velocity "drone_at 1 2 3 4"]
  by (simp add: drone_at_def)

section \<open>The event handler, the panel and the loop\<close>

subsection \<open>Calls on the Tello object\<close>

lemma call_tello_Inr:
  "call_tello ok c d = Inr d' \<Longrightarrow> d' = d\<lparr>tello := tello d @ [c]\<rparr>"
  by (auto simp: call_tello_def split: if_splits)

lemma call_tello_ok: "\<forall>h c. ok h c \<Longrightarrow> call_tello ok c d = Inr (d\<lparr>tello := tello d @ [c]\<rparr>)"
  by (simp add: call_tello_def)

lemma flushes_append: "flushes (l @ [c]) = flushes l + (if is_rc c then 1 else 0)"
  by (simp add: flushes_def)

lemma getattr_tello_update: "getattr (d\<lparr>tello := l\<rparr>) b = getattr d b"
  by (cases b) simp_all

subsection \<open>The event queue\<close>

lemma on_event_body_Inr:
  "on_event_body ok ev a = Inr a' \<Longrightarrow>
     (\<forall>b. getattr (drone a') b = getattr (drone a) b) \<and>
     flushes (tello (drone a')) = flushes (tello (drone a)) \<and>
     info a' = info a \<and>
     (\<not> running a \<longrightarrow> \<not> running a') \<and>
     (ev = QUIT \<longrightarrow> \<not> running a')"
  by (auto simp: on_event_body_def Let_def bind_result_def land_def takeoff_def emergency_def
      flushes_append getattr_tello_update
      split: event.splits if_splits sum.splits dest!: call_tello_Inr)

lemma on_event_loop_Inr:
  "on_event_loop ok evs a = Inr a' \<Longrightarrow>
     (\<forall>b. getattr (drone a') b = getattr (drone a) b) \<and>
     flushes (tello (drone a')) = flushes (tello (drone a)) \<and>
     info a' = info a \<and>
     (\<not> running a \<longrightarrow> \<not> running a') \<and>
     (QUIT \<in> set evs \<longrightarrow> \<not> running a')"
proof (induction evs arbitrary: a)
  case Nil
  then show ?case by simp
next
  case (Cons ev evs)
  from Cons.prems obtain a1 where
    b: "on_event_body ok ev a = Inr a1" and l: "on_event_loop ok evs a1 = Inr a'"
    by (auto split: sum.splits)
  from on_event_body_Inr [OF b] Cons.IH [OF l] show ?case
    by auto
qed

lemma on_event_body_ok: "\<forall>h c. ok h c \<Longrightarrow> \<exists>a'. on_event_body ok ev a = Inr a'"
  by (auto simp: on_event_body_def Let_def bind_result_def land_def takeoff_def emergency_def
      call_tello_ok split: event.splits)

lemma on_event_loop_ok: "\<forall>h c. ok h c \<Longrightarrow> \<exists>a'. on_event_loop ok evs a = Inr a'"
proof (induction evs arbitrary: a)
  case Nil
  then show ?case by simp
next
  case (Cons ev evs)
  from on_event_body_ok [OF Cons.prems] obtain a1 where "on_event_body ok ev a = Inr a1"
    by blast
  with Cons.IH [OF Cons.prems, of a1] show ?case by simp
qed

lemma on_event_Inr:
  "on_event ok evs ks a = Inr a' \<Longrightarrow>
     \<exists>a1. on_event_loop ok evs a = Inr a1 \<and> a' = a1\<lparr>drone := on_event_keys ks (drone a1)\<rparr>"
  by (auto simp: on_event_def bind_result_def split: sum.splits)

lemma on_event_ok: "\<forall>h c. ok h c \<Longrightarrow> \<exists>a'. on_event ok evs ks a = Inr a'"
  using on_event_loop_ok [of ok evs a] by (auto simp: on_event_def bind_result_def)

subsection \<open>The pressed keys\<close>

lemma getattr_cong:
  "(\<forall>b. getattr d' b = getattr d b) \<Longrightarrow> getattr (invoke d' c) b = getattr (invoke d c) b"
  by (cases c)
     (simp_all add: wrapper_defs getattr_gain_plus getattr_gain_minus getattr_waste getattr_stop
        del: getattr.simps)

lemma on_event_keys_fb:
  "getattr (on_event_keys ks d) Forward_backward_velocity =
     getattr (if ks K_w then forward d else if ks K_s then backward d
              else waste_forward_backward d) Forward_backward_velocity"
  by (simp add: on_event_keys_def Let_def wrapper_defs getattr_gain_plus getattr_gain_minus
      getattr_waste del: getattr.simps)

lemma on_event_keys_lr:
  "getattr (on_event_keys ks d) Left_right_velocity =
     getattr (if ks K_a then left d else if ks K_d then right d
              else waste_left_right d) Left_right_velocity"
  by (simp add: on_event_keys_def Let_def wrapper_defs getattr_gain_plus getattr_gain_minus
      getattr_waste del: getattr.simps)

lemma on_event_keys_ud:
  "getattr (on_event_keys ks d) Up_down_velocity =
     getattr (if ks K_SPACE then up d else if ks K_c then down d
              else waste_up_down d) Up_down_velocity"
  by (simp add: on_event_keys_def Let_def wrapper_defs getattr_gain_plus getattr_gain_minus
      getattr_waste del: getattr.simps)

lemma on_event_keys_yaw:
  "getattr (on_event_keys ks d) Yaw_velocity =
     getattr (if ks K_q then cw d else if ks K_e then ccw d
              else waste_yaw d) Yaw_velocity"
  by (simp add: on_event_keys_def Let_def wrapper_defs getattr_gain_plus getattr_gain_minus
      getattr_waste del: getattr.simps)

lemma tello_on_event_keys: "tello (on_event_keys ks d) = tello d"
  by (simp add: on_event_keys_def Let_def wrapper_defs tello_gain_plus tello_gain_minus
      tello_waste)

lemma on_event_keys_cong:
  assumes "\<forall>b. getattr d' b = getattr d b"
  shows "getattr (on_event_keys ks d') b = getattr (on_event_keys ks d) b"
  using assms
  by (cases b)
     (simp_all add: on_event_keys_fb on_event_keys_lr on_event_keys_ud on_event_keys_yaw
        wrapper_defs getattr_gain_plus getattr_gain_minus getattr_waste del: getattr.simps)

lemmas eval_defs = on_event_def on_event_keys_def bind_result_def wrapper_defs
  gain_velocity_plus_def gain_velocity_minus_def waste_velocity_def Let_def

text \<open>
  Claim C1, as stated: on a tick where both keys of a pair are held, \<open>on_event\<close> calls the
  decay method of the axis and neither gain method. It fails with \<open>w\<close> and \<open>s\<close> held and
  the forward velocity at 50: \<open>on_event\<close> leaves 53, which is what \<open>forward\<close> gives, where
  \<open>waste_forward_backward\<close> would give 40.
\<close>

theorem both_keys_held_counterexample:
  "keys_w_and_s K_w \<and> keys_w_and_s K_s \<and>
   on_event always_ok [] keys_w_and_s cruising_app =
     Inr (cruising_app\<lparr>drone := cruising\<lparr>forward_backward_velocity := 53\<rparr>\<rparr>) \<and>
   forward_backward_velocity (forward cruising) = 53 \<and>
   forward_backward_velocity (waste_forward_backward cruising) = 40"
  by (simp add: keys_w_and_s_def cruising_app_def cruising_def eval_defs)

text \<open>
  Claim C1, amended. When the calls on the Tello object made for the events return,
  \<open>on_event\<close> returns, and whenever it returns each axis has had exactly one method
  applied, chosen by the \<open>if\<close>/\<open>elif\<close>/\<open>else\<close> chain of its pair: the key tested first
  wins (\<open>w\<close>: \<open>forward\<close>, \<open>a\<close>: \<open>left\<close>, space: \<open>up\<close>, \<open>q\<close>: \<open>cw\<close>), also when the other
  key of the pair is held too; the second key is obeyed when the first is not held; the
  decay method is called exactly when neither key of the pair is held.
\<close>

theorem key_dispatch_first_key_wins:
  "((\<forall>h c. ok h c) \<longrightarrow> (\<exists>a'. on_event ok evs ks a = Inr a')) \<and>
   (\<forall>a'. on_event ok evs ks a = Inr a' \<longrightarrow>
      forward_backward_velocity (drone a') =
        forward_backward_velocity
          (if ks K_w then forward (drone a) else if ks K_s then backward (drone a)
           else waste_forward_backward (drone a)) \<and>
      left_right_velocity (drone a') =
        left_right_velocity
          (if ks K_a then left (drone a) else if ks K_d then right (drone a)
           else waste_left_right (drone a)) \<and>
      up_down_velocity (drone a') =
        up_down_velocity
          (if ks K_SPACE then up (drone a) else if ks K_c then down (drone a)
           else waste_up_down (drone a)) \<and>
      yaw_velocity (drone a') =
        yaw_velocity
          (if ks K_q then cw (drone a) else if ks K_e then ccw (drone a)
           else waste_yaw (drone a)))"
proof (intro conjI allI impI)
  assume "\<forall>h c. ok h c"
  then show "\<exists>a'. on_event ok evs ks a = Inr a'" by (rule on_event_ok)
next
  fix a' assume h: "on_event ok evs ks a = Inr a'"
  from on_event_Inr [OF h] obtain a1 where
    l: "on_event_loop ok evs a = Inr a1" and a': "a' = a1\<lparr>drone := on_event_keys ks (drone a1)\<rparr>"
    by blast
  from on_event_loop_Inr [OF l] have same: "\<forall>b. getattr (drone a1) b = getattr (drone a) b"
    by blast
  have k: "getattr (drone a') b = getattr (on_event_keys ks (drone a)) b" for b
    using on_event_keys_cong [OF same] a' by simp
  show "forward_backward_velocity (drone a') =
        forward_backward_velocity
          (if ks K_w then forward (drone a) else if ks K_s then backward (drone a)
           else waste_forward_backward (drone a))"
    using k [of Forward_backward_velocity] on_event_keys_fb [of ks "drone a"] by simp
  show "left_right_velocity (drone a') =
        left_right_velocity
          (if ks K_a then left (drone a) else if ks K_d then right (drone a)
           else waste_left_right (drone a))"
    using k [of Left_right_velocity] on_event_keys_lr [of ks "drone a"] by simp
  show "up_down_velocity (drone a') =
        up_down_velocity
          (if ks K_SPACE then up (drone a) else if ks K_c then down (drone a)
           else waste_up_down (drone a))"
    using k [of Up_down_velocity] on_event_keys_ud [of ks "drone a"] by simp
  show "yaw_velocity (drone a') =
        yaw_velocity
          (if ks K_q then cw (drone a) else if ks K_e then ccw (drone a)
           else waste_yaw (drone a))"
    using k [of Yaw_velocity] on_event_keys_yaw [of ks "drone a"] by simp
qed

theorem key_dispatch_first_key_wins_witness:
  "(\<forall>h c. always_ok h c) \<and>
   (\<exists>a'. on_event always_ok [] no_keys cruising_app = Inr a' \<and>
      forward_backward_velocity (drone a') = 40)"
proof -
  have ok: "\<forall>h c. always_ok h c" by (simp add: always_ok_def)
  have w: "forward_backward_velocity (waste_forward_backward (drone cruising_app)) = 40"
    by (simp add: cruising_app_def cruising_def eval_defs)
  from key_dispatch_first_key_wins [of always_ok "[]" no_keys cruising_app] ok w
  show ?thesis by (auto simp: no_keys_def)
qed

subsection \<open>The telemetry panel\<close>

lemma Info_update_panel_Inr:
  "Info_update_panel ok i d = Inr (i', d') \<Longrightarrow>
     i' = i\<lparr>refreshes := Suc (refreshes i)\<rparr> \<and>
     d' = d\<lparr>tello := tello d @
            [Get_height, Get_battery, Get_temperature, Query_wifi_signal_noise_ratio]\<rparr>"
  by (auto simp: Info_update_panel_def bind_result_def split: sum.splits dest!: call_tello_Inr)

lemma Info_update_panel_ok:
  "\<forall>h c. ok h c \<Longrightarrow>
     Info_update_panel ok i d =
       Inr (i\<lparr>refreshes := Suc (refreshes i)\<rparr>,
            d\<lparr>tello := tello d @
              [Get_height, Get_battery, Get_temperature, Query_wifi_signal_noise_ratio]\<rparr>)"
  by (simp add: Info_update_panel_def bind_result_def call_tello_ok)

lemma Info_update_Inr:
  "Info_update ok t i d = Inr (i', d') \<Longrightarrow>
     (\<forall>b. getattr d' b = getattr d b) \<and> flushes (tello d') = flushes (tello d)"
  by (auto simp: Info_update_def flushes_def getattr_tello_update
      split: if_splits dest!: Info_update_panel_Inr)

lemma on_info_Inr:
  "on_info ok t a = Inr a' \<Longrightarrow>
     (\<forall>b. getattr (drone a') b = getattr (drone a) b) \<and>
     flushes (tello (drone a')) = flushes (tello (drone a)) \<and> running a' = running a"
  by (auto simp: on_info_def bind_result_def split: sum.splits prod.splits dest!: Info_update_Inr)

lemma on_info_ok: "\<forall>h c. ok h c \<Longrightarrow> \<exists>a'. on_info ok t a = Inr a'"
  by (simp add: on_info_def Info_update_def bind_result_def Info_update_panel_ok)

lemma mod60_differs:
  assumes "(a::nat) < b" and "b < a + 60"
  shows "b mod 60 \<noteq> a mod 60"
proof
  assume "b mod 60 = a mod 60"
  with assms(1) have "60 dvd b - a"
    by (simp add: mod_eq_dvd_iff_nat)
  moreover from assms(1) have "0 < b - a" by simp
  ultimately have "60 \<le> b - a" by (rule dvd_imp_le)
  with assms(2) show False by simp
qed

lemma tm_sec_changes:
  "t0 div 1000 < t1 div 1000 \<Longrightarrow> t1 div 1000 < t0 div 1000 + 60 \<Longrightarrow> tm_sec t1 \<noteq> tm_sec t0"
  unfolding tm_sec_def by (rule mod60_differs)

lemma tm_sec_minute: "tm_sec (t + 60000) = tm_sec t"
proof -
  have "(t + 60 * 1000) div 1000 = 60 + t div 1000"
    by (rule div_mult_self1) simp
  then show ?thesis by (simp add: tm_sec_def)
qed

text \<open>
  Claim C7, as stated: the panel is refreshed on a tick if and only if at least one
  second of wall-clock time has passed since the last refresh. It fails both ways. With
  the last refresh at 0 ms and the tick at 60000 ms, sixty seconds have passed and
  \<open>Info.update\<close> does nothing, since \<open>tm_sec\<close> is 0 both times. With the last refresh at
  999 ms and the tick at 1000 ms, one millisecond has passed and the panel is refreshed.
\<close>

theorem telemetry_refresh_counterexample:
  "(1000::nat) \<le> 60000 - 0 \<and>
   Info_update always_ok (tm_sec 60000) \<lparr>last_upd_time = tm_sec 0, refreshes = 0\<rparr> cruising =
     Inr (\<lparr>last_upd_time = 0, refreshes = 0\<rparr>, cruising) \<and>
   (1000::nat) - 999 < 1000 \<and>
   Info_update always_ok (tm_sec 1000) \<lparr>last_upd_time = tm_sec 999, refreshes = 0\<rparr> cruising =
     Inr (\<lparr>last_upd_time = 1, refreshes = 1\<rparr>,
          cruising\<lparr>tello :=
            [Get_height, Get_battery, Get_temperature, Query_wifi_signal_noise_ratio]\<rparr>)"
  by (simp add: tm_sec_def Info_update_def Info_update_panel_def bind_result_def call_tello_def
      always_ok_def cruising_def)

text \<open>
  Claim C7, amended. \<open>Info.update\<close> refreshes the panel if and only if the value of
  \<open>tm_sec\<close> it reads differs from the one stored at the last refresh (or at
  construction): when they are equal it does nothing, and when they differ and the four
  telemetry reads return, it stores the new value and draws the panel once. So a tick
  whose whole-second clock is 1 to 59 seconds later than at the last refresh refreshes;
  a tick within the same whole second does not, and neither does one exactly a minute
  later.
\<close>

theorem telemetry_refresh_on_second_change:
  "(t = last_upd_time i \<longrightarrow> Info_update ok t i d = Inr (i, d)) \<and>
   (t \<noteq> last_upd_time i \<and> (\<forall>h c. ok h c) \<longrightarrow>
      Info_update ok t i d =
        Inr (i\<lparr>last_upd_time := t, refreshes := Suc (refreshes i)\<rparr>,
             d\<lparr>tello := tello d @
               [Get_height, Get_battery, Get_temperature, Query_wifi_signal_noise_ratio]\<rparr>)) \<and>
   (t0 div 1000 < t1 div 1000 \<and> t1 div 1000 < t0 div 1000 + 60 \<longrightarrow> tm_sec t1 \<noteq> tm_sec t0) \<and>
   (t1 div 1000 = t0 div 1000 \<longrightarrow> tm_sec t1 = tm_sec t0) \<and>
   tm_sec (t0 + 60000) = tm_sec t0"
  by (simp add: Info_update_def Info_update_panel_ok tm_sec_changes tm_sec_minute)
     (simp add: tm_sec_def)

theorem telemetry_refresh_on_second_change_witness:
  "Info_update always_ok 7 \<lparr>last_upd_time = 7, refreshes = 3\<rparr> cruising =
     Inr (\<lparr>last_upd_time = 7, refreshes = 3\<rparr>, cruising) \<and>
   (\<forall>h c. always_ok h c) \<and>
   Info_update always_ok 8 \<lparr>last_upd_time = 7, refreshes = 3\<rparr> cruising =
     Inr (\<lparr>last_upd_time = 8, refreshes = 4\<rparr>,
          cruising\<lparr>tello := tello cruising @
            [Get_height, Get_battery, Get_temperature, Query_wifi_signal_noise_ratio]\<rparr>) \<and>
   tm_sec 8000 \<noteq> tm_sec 7999 \<and> tm_sec 7999 = tm_sec 7000"
proof -
  have ok: "\<forall>h c. always_ok h c" by (simp add: always_ok_def)
  from telemetry_refresh_on_second_change
         [of 7 "\<lparr>last_upd_time = 7, refreshes = 3\<rparr>" always_ok cruising 7999 8000]
       telemetry_refresh_on_second_change
         [of 8 "\<lparr>last_upd_time = 7, refreshes = 3\<rparr>" always_ok cruising 7000 7999]
       ok
  show ?thesis by simp
qed

subsection \<open>One iteration of the loop\<close>

lemma on_render_Inr:
  "on_render ok a = Inr a' \<Longrightarrow>
     (\<forall>b. getattr (drone a') b = getattr (drone a) b) \<and>
     flushes (tello (drone a')) = flushes (tello (drone a)) \<and> running a' = running a"
  by (auto simp: on_render_def draw_frame_def get_frame_def bind_result_def flushes_append
      getattr_tello_update split: sum.splits dest!: call_tello_Inr)

lemma on_render_ok: "\<forall>h c. ok h c \<Longrightarrow> \<exists>a'. on_render ok a = Inr a'"
  by (simp add: on_render_def draw_frame_def get_frame_def bind_result_def call_tello_ok)

lemma update_rc_Inr:
  "update_rc ok d = Inr d' \<Longrightarrow>
     d' = d\<lparr>tello := tello d @ [Send_rc_control (left_right_velocity d)
             (forward_backward_velocity d) (up_down_velocity d) (yaw_velocity d)]\<rparr>"
  by (auto simp: update_rc_def dest!: call_tello_Inr)

lemma on_event_Inr_flushes:
  "on_event ok evs ks a = Inr a' \<Longrightarrow>
     flushes (tello (drone a')) = flushes (tello (drone a)) \<and>
     (\<not> running a \<longrightarrow> \<not> running a') \<and> (QUIT \<in> set evs \<longrightarrow> \<not> running a')"
  by (auto simp: tello_on_event_keys dest!: on_event_Inr on_event_loop_Inr)

lemma run_body_Inr:
  assumes "run_body ok t a = Inr a'"
  shows "flushes (tello (drone a')) = Suc (flushes (tello (drone a))) \<and>
     last (tello (drone a')) =
       Send_rc_control (left_right_velocity (drone a')) (forward_backward_velocity (drone a'))
         (up_down_velocity (drone a')) (yaw_velocity (drone a')) \<and>
     (\<not> running a \<longrightarrow> \<not> running a') \<and> (QUIT \<in> set (events t) \<longrightarrow> \<not> running a')"
proof -
  from assms obtain a1 a2 a3 d where
    1: "on_info ok (now t) a = Inr a1" and
    2: "on_event ok (events t) (keys t) a1 = Inr a2" and
    3: "on_render ok a2 = Inr a3" and
    4: "update_rc ok (drone a3) = Inr d" and
    5: "a' = a3\<lparr>drone := d\<rparr>"
    by (auto simp: run_body_def bind_result_def split: sum.splits)
  from on_info_Inr [OF 1] on_event_Inr_flushes [OF 2] on_render_Inr [OF 3] update_rc_Inr [OF 4] 5
  show ?thesis by (simp add: flushes_append)
qed

lemma run_body_ok: "\<forall>h c. ok h c \<Longrightarrow> \<exists>a'. run_body ok t a = Inr a'"
proof -
  assume ok: "\<forall>h c. ok h c"
  from on_info_ok [OF ok] obtain a1 where 1: "on_info ok (now t) a = Inr a1" by blast
  from on_event_ok [OF ok] obtain a2 where 2: "on_event ok (events t) (keys t) a1 = Inr a2"
    by blast
  from on_render_ok [OF ok] obtain a3 where 3: "on_render ok a2 = Inr a3" by blast
  from 1 2 3 ok show ?thesis
    by (simp add: run_body_def bind_result_def update_rc_def call_tello_ok)
qed

subsection \<open>Teardown and the whole loop\<close>

lemma release_Inr:
  "release ok d = Inr d' \<Longrightarrow>
     d' = (stop d)\<lparr>tello := tello d @ [Streamoff, Send_rc_control 0 0 0 0, End]\<rparr>"
  by (auto simp: release_def bind_result_def stop_def split: sum.splits
      dest!: call_tello_Inr update_rc_Inr)

lemma release_ok:
  "\<forall>h c. ok h c \<Longrightarrow>
     release ok d = Inr ((stop d)\<lparr>tello := tello d @ [Streamoff, Send_rc_control 0 0 0 0, End]\<rparr>)"
  by (simp add: release_def bind_result_def update_rc_def call_tello_ok stop_def)

lemma on_exit_Inr:
  "on_exit ok a = Inr a' \<Longrightarrow>
     a' = a\<lparr>drone := (stop (drone a))\<lparr>tello := tello (drone a) @
            [Streamoff, Send_rc_control 0 0 0 0, End]\<rparr>\<rparr>"
  by (auto simp: on_exit_def bind_result_def split: sum.splits dest!: release_Inr)

lemma on_exit_returns:
  "(\<exists>a'. on_exit ok a = Inr a') \<longleftrightarrow>
     ok (tello (drone a)) Streamoff \<and>
     ok (tello (drone a) @ [Streamoff]) (Send_rc_control 0 0 0 0) \<and>
     ok (tello (drone a) @ [Streamoff, Send_rc_control 0 0 0 0]) End"
  by (simp add: on_exit_def release_def update_rc_def call_tello_def bind_result_def stop_def)

lemma run_not_running: "\<not> running a \<Longrightarrow> run ok ts a = on_exit ok a"
  by (cases ts) simp_all

lemma run_still_running:
  "run ok ts a = Inr a' \<Longrightarrow> running a' \<Longrightarrow>
     flushes (tello (drone a')) = flushes (tello (drone a)) + length ts"
proof (induction ts arbitrary: a)
  case Nil
  then show ?case by (auto split: if_splits dest!: on_exit_Inr)
next
  case (Cons t ts)
  show ?case
  proof (cases "running a")
    case True
    with Cons.prems obtain a1 where
      b: "run_body ok t a = Inr a1" and r: "run ok ts a1 = Inr a'"
      by (auto split: sum.splits)
    from Cons.IH [OF r Cons.prems(2)] run_body_Inr [OF b] show ?thesis by simp
  next
    case False
    with Cons.prems show ?thesis by (auto dest!: on_exit_Inr)
  qed
qed

text \<open>
  Claim C4. An iteration of the loop of \<open>run\<close> returns when the calls on the Tello
  object return, and every iteration that returns has made exactly one
  \<open>send_rc_control\<close> call, the last call of the iteration, with the four velocities as
  they are at the end of the iteration, whether or not they changed. Over the whole
  loop: while \<open>_running\<close> holds after the ticks \<open>ts\<close>, exactly \<open>length ts\<close> such calls
  have been made.
\<close>

theorem one_flush_per_tick:
  "((\<forall>h c. ok h c) \<longrightarrow> (\<exists>a'. run_body ok t a = Inr a')) \<and>
   (\<forall>a'. run_body ok t a = Inr a' \<longrightarrow>
      flushes (tello (drone a')) = Suc (flushes (tello (drone a))) \<and>
      last (tello (drone a')) =
        Send_rc_control (left_right_velocity (drone a')) (forward_backward_velocity (drone a'))
          (up_down_velocity (drone a')) (yaw_velocity (drone a'))) \<and>
   (\<forall>a'. run ok ts a = Inr a' \<and> running a' \<longrightarrow>
      flushes (tello (drone a')) = flushes (tello (drone a)) + length ts)"
  using run_body_ok [of ok t a] run_body_Inr [of ok t a] run_still_running [of ok ts a]
  by blast

theorem one_flush_per_tick_witness:
  "(\<forall>h c. always_ok h c) \<and>
   (\<exists>a'. run_body always_ok quit_tick cruising_app = Inr a' \<and> flushes (tello (drone a')) = 1)"
proof -
  have ok: "\<forall>h c. always_ok h c" by (simp add: always_ok_def)
  from one_flush_per_tick [of always_ok quit_tick cruising_app "[]"] ok
  show ?thesis by (auto simp: flushes_def cruising_app_def cruising_def)
qed

lemmas run_defs = run_body_def on_info_def Info_update_def on_event_body_def on_render_def
  draw_frame_def get_frame_def update_rc_def call_tello_def on_exit_def release_def stop_def

text \<open>
  Claim C6, as stated: after a quit event the loop calls \<open>stop\<close>, sends the command once
  more and ends without an exception even if the calls of \<open>release\<close> fail. It fails
  when \<open>streamoff\<close> raises: \<open>run\<close> ends with that exception.
\<close>

theorem teardown_swallows_errors_counterexample:
  "run streamoff_fails [quit_tick] cruising_app = Inl (TelloException Streamoff)"
  by (simp add: quit_tick_def streamoff_fails_def no_keys_def cruising_app_def cruising_def
      run_defs eval_defs)

text \<open>
  Claim C6, amended. When a quit event is received in a tick and no call on the Tello
  object raises, the loop finishes that tick and then tears down: \<open>streamoff\<close>, \<open>stop\<close>,
  one \<open>send_rc_control\<close> of four zeros, \<open>end\<close>; then \<open>run\<close> returns. Nothing catches an
  exception in teardown: \<open>on_exit\<close> returns exactly when its three calls return, and
  when \<open>streamoff\<close> raises the exception leaves \<open>on_exit\<close> before \<open>stop\<close> and the final
  send.
\<close>

theorem quit_teardown:
  "(running a \<and> QUIT \<in> set (events t) \<and> (\<forall>h c. ok h c) \<longrightarrow>
      (\<exists>a1. run_body ok t a = Inr a1 \<and>
         run ok (t # ts) a =
           Inr (a1\<lparr>drone := (stop (drone a1))\<lparr>tello := tello (drone a1) @
                  [Streamoff, Send_rc_control 0 0 0 0, End]\<rparr>\<rparr>) \<and>
         \<not> running a1)) \<and>
   ((\<exists>a'. on_exit ok a = Inr a') \<longleftrightarrow>
      ok (tello (drone a)) Streamoff \<and>
      ok (tello (drone a) @ [Streamoff]) (Send_rc_control 0 0 0 0) \<and>
      ok (tello (drone a) @ [Streamoff, Send_rc_control 0 0 0 0]) End) \<and>
   (\<not> ok (tello (drone a)) Streamoff \<longrightarrow> on_exit ok a = Inl (TelloException Streamoff))"
proof (intro conjI impI)
  assume h: "running a \<and> QUIT \<in> set (events t) \<and> (\<forall>h c. ok h c)"
  then have ok: "\<forall>h c. ok h c" by blast
  from run_body_ok [OF ok] obtain a1 where b: "run_body ok t a = Inr a1" by blast
  from run_body_Inr [OF b] h have nr: "\<not> running a1" by blast
  have "run ok (t # ts) a = on_exit ok a1"
    using h b nr by (simp add: run_not_running)
  also have "\<dots> = Inr (a1\<lparr>drone := (stop (drone a1))\<lparr>tello := tello (drone a1) @
                  [Streamoff, Send_rc_control 0 0 0 0, End]\<rparr>\<rparr>)"
    by (simp add: on_exit_def bind_result_def release_ok [OF ok])
  finally show "\<exists>a1. run_body ok t a = Inr a1 \<and>
         run ok (t # ts) a =
           Inr (a1\<lparr>drone := (stop (drone a1))\<lparr>tello := tello (drone a1) @
                  [Streamoff, Send_rc_control 0 0 0 0, End]\<rparr>\<rparr>) \<and>
         \<not> running a1"
    using b nr by blast
next
  show "(\<exists>a'. on_exit ok a = Inr a') \<longleftrightarrow>
      ok (tello (drone a)) Streamoff \<and>
      ok (tello (drone a) @ [Streamoff]) (Send_rc_control 0 0 0 0) \<and>
      ok (tello (drone a) @ [Streamoff, Send_rc_control 0 0 0 0]) End"
    by (simp add: on_exit_returns)
next
  assume "\<not> ok (tello (drone a)) Streamoff"
  then show "on_exit ok a = Inl (TelloException Streamoff)"
    by (simp add: on_exit_def release_def bind_result_def call_tello_def)
qed

theorem quit_teardown_witness:
  "running cruising_app \<and> QUIT \<in> set (events quit_tick) \<and> (\<forall>h c. always_ok h c) \<and>
   (\<exists>a1. run_body always_ok quit_tick cruising_app = Inr a1 \<and>
      run always_ok [quit_tick] cruising_app =
        Inr (a1\<lparr>drone := (stop (drone a1))\<lparr>tello := tello (drone a1) @
               [Streamoff, Send_rc_control 0 0 0 0, End]\<rparr>\<rparr>)) \<and>
   \<not> streamoff_fails (tello (drone cruising_app)) Streamoff \<and>
   on_exit streamoff_fails cruising_app = Inl (TelloException Streamoff)"
proof -
  have ok: "\<forall>h c. always_ok h c" by (simp add: always_ok_def)
  have q: "QUIT \<in> set (events quit_tick)" by (simp add: quit_tick_def)
  have r: "running cruising_app" by (simp add: cruising_app_def)
  have f: "\<not> streamoff_fails (tello (drone cruising_app)) Streamoff"
    by (simp add: streamoff_fails_def)
  from quit_teardown [of cruising_app quit_tick always_ok "[]"] ok q r
    quit_teardown [of cruising_app quit_tick streamoff_fails "[]"] f
  show ?thesis by blast
qed

end
